theory Spec2Isabelle
  imports Main
begin

section \<open>Errors\<close>

text \<open>
  The exceptions the modelled code can raise. A function that may raise returns
  \<open>py_error + 'r\<close>, with \<open>Inl\<close> for the exception.
\<close>

datatype py_error = ValueError | ValidationError | ZeroDivisionError | AttributeError | TypeError

section \<open>Events and the flow's event log\<close>

text \<open>
  \<^verbatim>\<open>controlflow.events\<close> and \<^verbatim>\<open>controlflow.flows\<close> are not among the sources; the
  records below carry the attributes that \<^verbatim>\<open>teams.py\<close> and \<^verbatim>\<open>agent_context.py\<close>
  read and write. Agents are values of a type \<open>'a\<close>, tasks of a type \<open>'t\<close>.
  A tool-result event carries a \<^verbatim>\<open>tool_result\<close> with an \<^verbatim>\<open>end_turn\<close> flag; an event
  of another kind has no such attribute (\<open>None\<close>), and reading it raises
  \<^verbatim>\<open>AttributeError\<close>.
\<close>

record ToolResult =
  end_turn :: bool

record ('a, 't) Event =
  event :: string
  agent :: 'a
  tool_result :: "ToolResult option"
  persist :: bool
  thread_id :: "string option"
  event_tasks :: "'t list"
  event_agents :: "'a list"

text \<open>The log is kept oldest first; \<^verbatim>\<open>add_events\<close> appends at the end.\<close>

record ('a, 't) Flow =
  thread_id :: string
  events :: "('a, 't) Event list"

text \<open>
  Modelled from the spec: \<^verbatim>\<open>Flow.get_events\<close> is not among the sources. The spec
  gives it as \<^verbatim>\<open>get_events(agents?, tasks?, kinds?, limit?)\<close>, newest first when a
  limit is given, and describes the scheduler's query as the events "whose owning
  agent is a member of this team, scoped to the run's active tasks, restricted to
  kinds", limited to the given number of results. Both calls in the sources pass a
  limit.
\<close>

definition get_events ::
  "('a, 't) Flow \<Rightarrow> 'a list \<Rightarrow> 't list \<Rightarrow> string list \<Rightarrow> nat \<Rightarrow> ('a, 't) Event list" where
  "get_events f ags tks types limit =
     take limit
       (filter (\<lambda>e. agent e \<in> set ags \<and> (\<exists>t \<in> set tks. t \<in> set (event_tasks e)) \<and>
                    event e \<in> set types)
          (rev (events f)))"

text \<open>
  Modelled from the spec: \<^verbatim>\<open>Flow.add_events\<close> is not among the sources. The spec
  gives the log as append-only and time-ordered.
\<close>

definition add_events :: "('a, 't) Flow \<Rightarrow> ('a, 't) Event list \<Rightarrow> ('a, 't) Flow" where
  "add_events f es = f\<lparr>events := events f @ es\<rparr>"

section \<open>The agent context\<close>

text \<open>\<^verbatim>\<open>class AgentContext\<close> of \<^verbatim>\<open>agent_context.py\<close>. Tools are values of a type
  \<open>'tool\<close>, handlers of a type \<open>'h\<close>.\<close>

record ('a, 't, 'tool, 'h) AgentContext =
  flow :: "('a, 't) Flow"
  tasks :: "'t list"
  tools :: "'tool list"
  agents :: "'a list"
  handlers :: "'h list"
  instructions :: "string list"

section \<open>Teams\<close>

text \<open>
  \<^verbatim>\<open>class Team\<close> of \<^verbatim>\<open>teams.py\<close>. \<open>type_name\<close> is \<^verbatim>\<open>type(self).__name__\<close>,
  \<open>iterations\<close> is the private attribute \<^verbatim>\<open>_iterations\<close>, a Python integer.
\<close>

record 'a Team =
  type_name :: string
  name :: string
  description :: "string option"
  prompt :: "string option"
  instructions :: "string option"
  agents :: "'a list"
  iterations :: int

subsection \<open>\<^verbatim>\<open>Team.get_agent\<close>\<close>

text \<open>
  The query of \<^verbatim>\<open>get_agent\<close> (lines 82 to 87): the newest event of the team's members,
  within the context's tasks, of kind "tool-result" or "agent-message".
\<close>

definition last_agent_event ::
  "'a Team \<Rightarrow> ('a, 't, 'tool, 'h) AgentContext \<Rightarrow> ('a, 't) Event list" where
  "last_agent_event self context =
     get_events (flow context) (Team.agents self) (tasks context)
       [''tool-result'', ''agent-message''] 1"

text \<open>
  The condition of the \<^verbatim>\<open>if\<close> (lines 88 to 92), evaluated left to right with Python's
  short-circuit \<^verbatim>\<open>and\<close>: the list is non-empty, its first event has kind
  "tool-result", and that event's \<^verbatim>\<open>tool_result.end_turn\<close> is false.
\<close>

fun turn_held :: "('a, 't) Event list \<Rightarrow> py_error + bool" where
  "turn_held [] = Inr False"
| "turn_held (e # _) =
     (if event e = ''tool-result''
      then (case tool_result e of
              None \<Rightarrow> Inl AttributeError
            | Some r \<Rightarrow> Inr (\<not> end_turn r))
      else Inr False)"

text \<open>
  Lines 95 to 97. \<^verbatim>\<open>x % 0\<close> raises \<^verbatim>\<open>ZeroDivisionError\<close>; for a positive length
  Python's \<^verbatim>\<open>%\<close> is the \<open>mod\<close> of \<open>int\<close>, whose result lies in \<open>0..<len\<close>, so the
  list index is in range.
\<close>

definition rotate_agent :: "'a Team \<Rightarrow> py_error + ('a \<times> 'a Team)" where
  "rotate_agent self =
     (if length (Team.agents self) = 0 then Inl ZeroDivisionError
      else Inr (Team.agents self ! nat (iterations self mod int (length (Team.agents self))),
                self\<lparr>iterations := iterations self + 1\<rparr>))"

text \<open>The method returns the chosen agent together with the team as the call leaves it.\<close>

definition get_agent ::
  "'a Team \<Rightarrow> ('a, 't, 'tool, 'h) AgentContext \<Rightarrow> py_error + ('a \<times> 'a Team)" where
  "get_agent self context =
     (let es = last_agent_event self context
      in case turn_held es of
           Inl err \<Rightarrow> Inl err
         | Inr True \<Rightarrow> Inr (agent (es ! 0), self)
         | Inr False \<Rightarrow> rotate_agent self)"

text \<open>
  Consecutive calls of \<^verbatim>\<open>get_agent\<close> on one team object, one context per call (the
  log may have grown between two calls): the agents returned, in order, and the team
  as the last call leaves it. An exception ends the sequence.
\<close>

fun get_agent_calls ::
  "'a Team \<Rightarrow> ('a, 't, 'tool, 'h) AgentContext list \<Rightarrow> py_error + ('a list \<times> 'a Team)" where
  "get_agent_calls self [] = Inr ([], self)"
| "get_agent_calls self (c # cs) =
     (case get_agent self c of
        Inl err \<Rightarrow> Inl err
      | Inr (a, self') \<Rightarrow>
          (case get_agent_calls self' cs of
             Inl err \<Rightarrow> Inl err
           | Inr (as, self'') \<Rightarrow> Inr (a # as, self'')))"

text \<open>
  An event of kind "tool-result" is an instance of the tool-result event class, which
  has the attribute \<^verbatim>\<open>tool_result\<close>.
\<close>

definition well_formed :: "('a, 't) Event \<Rightarrow> bool" where
  "well_formed e = (event e \<noteq> ''tool-result'' \<or> tool_result e \<noteq> None)"

subsection \<open>Construction\<close>

text \<open>
  \<^verbatim>\<open>validate_agents\<close> (lines 39 to 43) runs before pydantic's own validation, on the
  value given for \<^verbatim>\<open>agents\<close>; \<^verbatim>\<open>not v\<close> holds of \<^verbatim>\<open>None\<close> and of the empty list.
\<close>

definition validate_agents :: "'a list option \<Rightarrow> py_error + 'a list" where
  "validate_agents v =
     (case v of
        None \<Rightarrow> Inl ValueError
      | Some xs \<Rightarrow> if xs = [] then Inl ValueError else Inr xs)"

text \<open>
  \<^verbatim>\<open>Team(agents=..., name=..., description=..., prompt=..., instructions=...)\<close>.
  The field \<^verbatim>\<open>agents\<close> has no default: an absent value (\<open>None\<close> here, as for an
  explicit \<^verbatim>\<open>None\<close>) is refused, and pydantic reports a \<^verbatim>\<open>ValueError\<close> of a field
  validator as a \<^verbatim>\<open>ValidationError\<close>. \<^verbatim>\<open>name\<close> defaults to "Agents", the counter
  starts at 0.
\<close>

definition new_team ::
  "'a list option \<Rightarrow> string option \<Rightarrow> string option \<Rightarrow> string option \<Rightarrow> string option
     \<Rightarrow> py_error + 'a Team" where
  "new_team ags nm descr prm instr =
     (case validate_agents ags of
        Inl _ \<Rightarrow> Inl ValidationError
      | Inr xs \<Rightarrow>
          Inr \<lparr>type_name = ''Team'',
               name = (case nm of None \<Rightarrow> ''Agents'' | Some n \<Rightarrow> n),
               description = descr, prompt = prm, instructions = instr,
               agents = xs, iterations = 0\<rparr>)"

subsection \<open>\<^verbatim>\<open>Team._generate_id\<close>\<close>

text \<open>The tuple that lines 47 to 54 build; \<open>agent_id\<close> is the attribute \<^verbatim>\<open>id\<close> of a
  member, defined with \<^verbatim>\<open>Agent\<close> outside the sources.\<close>

type_synonym hashed =
  "string \<times> string \<times> string option \<times> string option \<times> string option \<times> string list"

definition hashed_fields :: "('a \<Rightarrow> string) \<Rightarrow> 'a Team \<Rightarrow> hashed" where
  "hashed_fields agent_id self =
     (type_name self, name self, description self, prompt self, Team.instructions self,
      map agent_id (Team.agents self))"

text \<open>
  Modelled from the spec: \<^verbatim>\<open>hash_objects\<close> of \<^verbatim>\<open>controlflow.utilities.general\<close> is not
  among the sources. The spec calls it "a pure hash over an explicit ordered tuple of
  the entity's semantic fields"; it is a parameter here, a function from the tuple to
  the identifier.
\<close>

definition generate_id :: "(hashed \<Rightarrow> string) \<Rightarrow> ('a \<Rightarrow> string) \<Rightarrow> 'a Team \<Rightarrow> string" where
  "generate_id hash_objects agent_id self = hash_objects (hashed_fields agent_id self)"

text \<open>Teams that differ in their names only, one for every length of name.\<close>

definition named_team :: "nat \<Rightarrow> string Team" where
  "named_team k =
     \<lparr>type_name = ''Team'', name = replicate k (CHR ''a''), description = None, prompt = None,
      instructions = None, agents = [''Alice''], iterations = 0\<rparr>"

section \<open>Operations of the agent context\<close>

subsection \<open>\<^verbatim>\<open>add_agent\<close>\<close>

definition add_agent ::
  "('a, 't, 'tool, 'h) AgentContext \<Rightarrow> 'a \<Rightarrow> ('a, 't, 'tool, 'h) AgentContext" where
  "add_agent self a =
     (if a \<notin> set (AgentContext.agents self)
      then self\<lparr>AgentContext.agents := AgentContext.agents self @ [a]\<rparr>
      else self)"

subsection \<open>\<^verbatim>\<open>handle_event\<close>\<close>

text \<open>
  Modelled from the spec: \<^verbatim>\<open>Event.add_tasks\<close> and \<^verbatim>\<open>Event.add_agents\<close> are not among
  the sources. The spec has them "associate the event with every currently-active
  task" and "with every currently-registered participating agent": what is not yet
  associated is added, in the order given.
\<close>

definition add_tasks :: "('a, 't) Event \<Rightarrow> 't list \<Rightarrow> ('a, 't) Event" where
  "add_tasks e ts = e\<lparr>event_tasks := event_tasks e @ filter (\<lambda>t. t \<notin> set (event_tasks e)) ts\<rparr>"

definition add_agents :: "('a, 't) Event \<Rightarrow> 'a list \<Rightarrow> ('a, 't) Event" where
  "add_agents e as =
     e\<lparr>event_agents := event_agents e @ filter (\<lambda>a. a \<notin> set (event_agents e)) as\<rparr>"

text \<open>
  What a call does to the world outside the context, in the order it happens: a
  handler is called with the event as it is at that moment, the log is written.
  Handlers are \<^verbatim>\<open>controlflow.orchestration.handler.Handler\<close> objects, outside the
  sources; what a handler does with the event is not modelled, and each call is
  taken to return.
\<close>

datatype ('a, 't, 'h) effect =
  HandlerCall 'h "('a, 't) Event"
| LogWrite "('a, 't) Event list"

text \<open>The loop of lines 60 and 61.\<close>

fun run_handlers :: "'h list \<Rightarrow> ('a, 't) Event \<Rightarrow> ('a, 't, 'h) effect list" where
  "run_handlers [] e = []"
| "run_handlers (h # hs) e = HandlerCall h e # run_handlers hs e"

text \<open>
  The method mutates the event and, through \<^verbatim>\<open>add_events\<close>, the flow of the context:
  it returns the context and the event as the call leaves them, and the effects.
\<close>

definition handle_event ::
  "('a, 't, 'tool, 'h) AgentContext \<Rightarrow> ('a, 't) Event \<Rightarrow> bool option
     \<Rightarrow> ('a, 't, 'tool, 'h) AgentContext \<times> ('a, 't) Event \<times> ('a, 't, 'h) effect list" where
  "handle_event self ev persist_arg =
     (let p = (case persist_arg of None \<Rightarrow> persist ev | Some b \<Rightarrow> b);
          ev1 = ev\<lparr>Event.thread_id := Some (Flow.thread_id (flow self))\<rparr>;
          ev2 = add_tasks ev1 (tasks self);
          ev3 = add_agents ev2 (AgentContext.agents self);
          calls = run_handlers (handlers self) ev3
      in if p then (self\<lparr>flow := add_events (flow self) [ev3]\<rparr>, ev3, calls @ [LogWrite [ev3]])
         else (self, ev3, calls))"

subsection \<open>\<^verbatim>\<open>compile_prompt\<close>\<close>

text \<open>
  The renderings that \<^verbatim>\<open>compile_prompt\<close> asks for come from templates and from
  \<^verbatim>\<open>get_prompt\<close> methods outside the sources: they are parameters, functions of their
  arguments and of the context they are given.
\<close>

record ('a, 't, 'tool, 'h) Renderers =
  get_prompt :: "'a \<Rightarrow> ('a, 't, 'tool, 'h) AgentContext \<Rightarrow> string"
  flow_get_prompt :: "('a, 't) Flow \<Rightarrow> ('a, 't, 'tool, 'h) AgentContext \<Rightarrow> string"
  TasksTemplate :: "'t list \<Rightarrow> ('a, 't, 'tool, 'h) AgentContext \<Rightarrow> string"
  ToolTemplate :: "'tool list \<Rightarrow> ('a, 't, 'tool, 'h) AgentContext \<Rightarrow> string"
  InstructionsTemplate :: "string list \<Rightarrow> ('a, 't, 'tool, 'h) AgentContext \<Rightarrow> string"

text \<open>Python's \<^verbatim>\<open>sep.join(parts)\<close>.\<close>

fun join :: "string \<Rightarrow> string list \<Rightarrow> string" where
  "join sep [] = []"
| "join sep [p] = p"
| "join sep (p # q # ps) = p @ sep @ join sep (q # ps)"

text \<open>The separator \<^verbatim>\<open>"\n\n"\<close>.\<close>

definition blank_line :: string where
  "blank_line = [CHR 0x0A, CHR 0x0A]"

text \<open>
  The method returns the prompt; the context is returned beside it, as the call
  leaves it. \<open>agent'\<close> is the parameter \<^verbatim>\<open>agent\<close>; \<open>agents0\<close> and \<open>agents1\<close> are the
  local variable \<^verbatim>\<open>agents\<close> before and after line 87; a rendering is falsy when it
  is the empty string.
\<close>

definition compile_prompt ::
  "('a, 't, 'tool, 'h) Renderers \<Rightarrow> ('a, 't, 'tool, 'h) AgentContext \<Rightarrow> 'a
     \<Rightarrow> string \<times> ('a, 't, 'tool, 'h) AgentContext" where
  "compile_prompt R self agent' =
     (let agents0 = AgentContext.agents self;
          agents1 = (if agent' \<notin> set agents0 then agents0 @ [agent'] else agents0);
          prompts = map (\<lambda>a. get_prompt R a self) (rev agents1) @
                    [flow_get_prompt R (flow self) self,
                     TasksTemplate R (tasks self) self,
                     ToolTemplate R (tools self) self,
                     InstructionsTemplate R (AgentContext.instructions self) self]
      in (join blank_line (filter (\<lambda>p. p \<noteq> []) prompts), self))"

section \<open>\<^verbatim>\<open>provide_agent_context\<close>\<close>

text \<open>
  A Python callable takes positional arguments and keyword arguments, a dictionary
  from names to values. The ambient context, \<^verbatim>\<open>get_context()\<close> at the time of the
  call, is an argument of the model: \<open>None\<close> when no context is active. An
  \<^verbatim>\<open>AgentContext\<close> object is truthy.
\<close>

type_synonym ('v, 'r) pyfun = "'v list \<Rightarrow> (string \<rightharpoonup> 'v) \<Rightarrow> 'r"

text \<open>Lines 129 to 133.\<close>

definition wrapper ::
  "('v, 'r) pyfun \<Rightarrow> string \<Rightarrow> 'v option \<Rightarrow> ('v, 'r) pyfun" where
  "wrapper fn context_kwarg ambient args kwargs =
     (if context_kwarg \<notin> dom kwargs
      then (case ambient of
              Some context \<Rightarrow> fn args (kwargs(context_kwarg \<mapsto> context))
            | None \<Rightarrow> fn args kwargs)
      else fn args kwargs)"

text \<open>
  Without a function the call returns the decorator with \<^verbatim>\<open>context_kwarg\<close> fixed
  (line 124); with one, the wrapper. Line 126: \<^verbatim>\<open>context_kwarg or "context"\<close>.
\<close>

datatype ('v, 'r) decorated =
  Partial "string option"
| Wrapper "'v option \<Rightarrow> ('v, 'r) pyfun"

definition provide_agent_context ::
  "('v, 'r) pyfun option \<Rightarrow> string option \<Rightarrow> ('v, 'r) decorated" where
  "provide_agent_context fn context_kwarg =
     (case fn of
        None \<Rightarrow> Partial context_kwarg
      | Some f \<Rightarrow>
          Wrapper (wrapper f (case context_kwarg of
                                None \<Rightarrow> ''context''
                              | Some k \<Rightarrow> if k = [] then ''context'' else k)))"

text \<open>
  A function to wrap, \<^verbatim>\<open>def fn(context, **extra): return context\<close>, called with
  strings, under Python's binding of arguments: a parameter given both by position and by keyword is a
  \<^verbatim>\<open>TypeError\<close>, and so is a missing or a surplus positional argument.
\<close>

definition returns_context :: "(string, py_error + string) pyfun" where
  "returns_context args kwargs =
     (case args of
        [] \<Rightarrow> (case kwargs ''context'' of None \<Rightarrow> Inl TypeError | Some v \<Rightarrow> Inr v)
      | [v] \<Rightarrow> (case kwargs ''context'' of None \<Rightarrow> Inr v | Some _ \<Rightarrow> Inl TypeError)
      | _ \<Rightarrow> Inl TypeError)"

section \<open>Example data\<close>

text \<open>A team of Alice and Bob, one task, and events Alice may have emitted.\<close>

definition alice_bob :: "string Team" where
  "alice_bob =
     \<lparr>type_name = ''Team'', name = ''Agents'', description = None, prompt = None,
      instructions = None, agents = [''Alice'', ''Bob''], iterations = 0\<rparr>"

definition tool_event :: "string \<Rightarrow> bool \<Rightarrow> (string, nat) Event" where
  "tool_event a fin =
     \<lparr>event = ''tool-result'', agent = a, tool_result = Some \<lparr>end_turn = fin\<rparr>,
      persist = True, thread_id = Some ''run'', event_tasks = [1], event_agents = [a]\<rparr>"

definition message_event :: "string \<Rightarrow> (string, nat) Event" where
  "message_event a =
     \<lparr>event = ''agent-message'', agent = a, tool_result = None,
      persist = True, thread_id = Some ''run'', event_tasks = [1], event_agents = [a]\<rparr>"

definition context_with ::
  "(string, nat) Event list \<Rightarrow> (string, nat, string, string) AgentContext" where
  "context_with log =
     \<lparr>flow = \<lparr>thread_id = ''run'', events = log\<rparr>, tasks = [1], tools = [],
      agents = [], handlers = [], instructions = []\<rparr>"

definition two_agents :: "(string, nat, string, string) AgentContext" where
  "two_agents =
     \<lparr>flow = \<lparr>thread_id = ''run'', events = []\<rparr>, tasks = [1, 2], tools = [''search''],
      agents = [''P1'', ''P2''], handlers = [''log'', ''print''], instructions = []\<rparr>"

text \<open>Renderings for the example: an agent's prompt names it; there is no tool text.\<close>

definition renderers :: "(string, nat, string, string) Renderers" where
  "renderers =
     \<lparr>get_prompt = (\<lambda>a c. ''agent '' @ a),
      flow_get_prompt = (\<lambda>f c. ''flow''),
      TasksTemplate = (\<lambda>ts c. ''tasks''),
      ToolTemplate = (\<lambda>ts c. []),
      InstructionsTemplate = (\<lambda>is c. ''instructions'')\<rparr>"

text \<open>
  The contexts of three consecutive calls: no event yet; Alice has emitted a tool
  result that does not end her turn; Alice has then emitted one that does.
\<close>

definition scenario :: "(string, nat, string, string) AgentContext list" where
  "scenario =
     [context_with [],
      context_with [tool_event ''Alice'' False],
      context_with [tool_event ''Alice'' False, tool_event ''Alice'' True]]"

text \<open>An event as an agent emits it, and the same event as \<open>two_agents\<close> enriches it.\<close>

definition new_message :: "(string, nat) Event" where
  "new_message =
     \<lparr>event = ''agent-message'', agent = ''P1'', tool_result = None, persist = True,
      thread_id = None, event_tasks = [2], event_agents = []\<rparr>"

definition enriched_message :: "(string, nat) Event" where
  "enriched_message =
     \<lparr>event = ''agent-message'', agent = ''P1'', tool_result = None, persist = True,
      thread_id = Some ''run'', event_tasks = [2, 1], event_agents = [''P1'', ''P2'']\<rparr>"

section \<open>Turn selection\<close>

text \<open>
  Claim C1. If the newest event of the team's members (within the context's tasks,
  of kind "tool-result" or "agent-message", limit 1) exists, is a tool-result and
  has \<^verbatim>\<open>end_turn = false\<close>, then \<^verbatim>\<open>get_agent\<close> returns the agent of that event and
  leaves the team, and so its turn counter, as it was.
\<close>

theorem get_agent_continuation:
  assumes "last_agent_event self context = e # es"
    and "event e = ''tool-result''"
    and "tool_result e = Some r"
    and "\<not> end_turn r"
  shows "get_agent self context = Inr (agent e, self)"
  using assms by (simp add: get_agent_def)

theorem get_agent_continuation_witness:
  "last_agent_event alice_bob (context_with [tool_event ''Alice'' True, tool_event ''Bob'' False])
     = [tool_event ''Bob'' False]
   \<and> event (tool_event ''Bob'' False) = ''tool-result''
   \<and> tool_result (tool_event ''Bob'' False) = Some \<lparr>end_turn = False\<rparr>
   \<and> \<not> end_turn \<lparr>end_turn = False\<rparr>
   \<and> get_agent alice_bob (context_with [tool_event ''Alice'' True, tool_event ''Bob'' False])
     = Inr (''Bob'', alice_bob)
   \<and> iterations alice_bob = 0"
proof -
  have q: "last_agent_event alice_bob
             (context_with [tool_event ''Alice'' True, tool_event ''Bob'' False])
           = [tool_event ''Bob'' False]"
    by (simp add: last_agent_event_def get_events_def alice_bob_def context_with_def
        tool_event_def)
  have k: "event (tool_event ''Bob'' False) = ''tool-result''"
    by (simp add: tool_event_def)
  have t: "tool_result (tool_event ''Bob'' False) = Some \<lparr>end_turn = False\<rparr>"
    by (simp add: tool_event_def)
  have n: "\<not> end_turn \<lparr>end_turn = False\<rparr>"
    by simp
  have a: "agent (tool_event ''Bob'' False) = ''Bob''"
    by (simp add: tool_event_def)
  from get_agent_continuation [OF q k t n] a q k t n show ?thesis
    by (simp add: alice_bob_def)
qed

text \<open>The query does not read the counter.\<close>

lemma last_agent_event_iterations:
  "last_agent_event (self\<lparr>iterations := k\<rparr>) context = last_agent_event self context"
  by (simp add: last_agent_event_def)

lemma get_agent_no_hold:
  assumes "turn_held (last_agent_event self context) = Inr False"
    and "Team.agents self \<noteq> []"
  shows "get_agent self context =
           Inr (Team.agents self ! nat (iterations self mod int (length (Team.agents self))),
                self\<lparr>iterations := iterations self + 1\<rparr>)"
  using assms by (simp add: get_agent_def rotate_agent_def)

lemma get_agent_calls_rotation:
  assumes "Team.agents self \<noteq> []"
    and "\<forall>c \<in> set cs. turn_held (last_agent_event self c) = Inr False"
  shows "get_agent_calls self cs =
           Inr (map (\<lambda>i. Team.agents self !
                       nat ((iterations self + int i) mod int (length (Team.agents self))))
                  [0..<length cs],
                self\<lparr>iterations := iterations self + int (length cs)\<rparr>)"
  using assms
proof (induction cs arbitrary: self)
  case Nil
  then show ?case by simp
next
  case (Cons c cs)
  let ?s = "self\<lparr>iterations := iterations self + 1\<rparr>"
  have g: "get_agent self c =
             Inr (Team.agents self ! nat (iterations self mod int (length (Team.agents self))), ?s)"
    using Cons.prems by (simp add: get_agent_no_hold)
  have "Team.agents ?s \<noteq> []" using Cons.prems by simp
  moreover have "\<forall>c \<in> set cs. turn_held (last_agent_event ?s c) = Inr False"
    using Cons.prems by (simp add: last_agent_event_iterations)
  ultimately have ih: "get_agent_calls ?s cs =
           Inr (map (\<lambda>i. Team.agents ?s !
                       nat ((iterations ?s + int i) mod int (length (Team.agents ?s))))
                  [0..<length cs],
                ?s\<lparr>iterations := iterations ?s + int (length cs)\<rparr>)"
    by (rule Cons.IH)
  show ?case
    by (simp add: g ih map_upt_Suc add.assoc del: upt_Suc)
qed

text \<open>Reading a list at \<open>c, c + 1, \<dots>\<close> modulo its length is a rotation of the list.\<close>

lemma map_index_rotate:
  assumes "M \<noteq> []"
  shows "map (\<lambda>i. M ! nat ((c + int i) mod int (length M))) [0..<length M]
           = rotate (nat (c mod int (length M))) M"
proof (rule nth_equalityI)
  show "length (map (\<lambda>i. M ! nat ((c + int i) mod int (length M))) [0..<length M])
          = length (rotate (nat (c mod int (length M))) M)"
    by simp
next
  fix i
  assume "i < length (map (\<lambda>i. M ! nat ((c + int i) mod int (length M))) [0..<length M])"
  then have i: "i < length M" by simp
  have n: "0 < int (length M)" using assms by simp
  have "int ((nat (c mod int (length M)) + i) mod length M)
          = (c mod int (length M) + int i) mod int (length M)"
    using n by (simp add: zmod_int)
  also have "\<dots> = (c + int i) mod int (length M)"
    by (simp add: mod_add_left_eq)
  finally have "(nat (c mod int (length M)) + i) mod length M
                  = nat ((c + int i) mod int (length M))"
    by linarith
  then show "map (\<lambda>i. M ! nat ((c + int i) mod int (length M))) [0..<length M] ! i
               = rotate (nat (c mod int (length M))) M ! i"
    using i by (simp add: nth_rotate)
qed


text \<open>
  Claim C2. For a team with a non-empty member list \<open>M\<close> and counter \<open>c\<close>, a call of
  \<^verbatim>\<open>get_agent\<close> in which the continuation condition does not hold returns
  \<open>M[c mod len(M)]\<close> and leaves the counter at \<open>c + 1\<close>; \<open>len(M)\<close> consecutive such calls
  return the members in list order, cyclically, starting at position \<open>c mod len(M)\<close>:
  every position of the list is visited once.
\<close>

theorem get_agent_round_robin:
  assumes "Team.agents self \<noteq> []"
  shows "(turn_held (last_agent_event self context) = Inr False \<longrightarrow>
            get_agent self context =
              Inr (Team.agents self ! nat (iterations self mod int (length (Team.agents self))),
                   self\<lparr>iterations := iterations self + 1\<rparr>))
       \<and> (length cs = length (Team.agents self)
            \<and> (\<forall>c \<in> set cs. turn_held (last_agent_event self c) = Inr False) \<longrightarrow>
            get_agent_calls self cs =
              Inr (rotate (nat (iterations self mod int (length (Team.agents self))))
                     (Team.agents self),
                   self\<lparr>iterations := iterations self + int (length (Team.agents self))\<rparr>))"
proof (intro conjI impI)
  assume "turn_held (last_agent_event self context) = Inr False"
  then show "get_agent self context =
      Inr (Team.agents self ! nat (iterations self mod int (length (Team.agents self))),
           self\<lparr>iterations := iterations self + 1\<rparr>)"
    using assms by (rule get_agent_no_hold)
next
  assume h: "length cs = length (Team.agents self)
             \<and> (\<forall>c \<in> set cs. turn_held (last_agent_event self c) = Inr False)"
  then have "get_agent_calls self cs =
           Inr (map (\<lambda>i. Team.agents self !
                       nat ((iterations self + int i) mod int (length (Team.agents self))))
                  [0..<length cs],
                self\<lparr>iterations := iterations self + int (length cs)\<rparr>)"
    using assms by (simp add: get_agent_calls_rotation)
  then show "get_agent_calls self cs =
      Inr (rotate (nat (iterations self mod int (length (Team.agents self)))) (Team.agents self),
           self\<lparr>iterations := iterations self + int (length (Team.agents self))\<rparr>)"
    using h assms by (simp add: map_index_rotate)
qed

theorem get_agent_round_robin_witness:
  "Team.agents (alice_bob\<lparr>iterations := 3\<rparr>) \<noteq> []
   \<and> turn_held (last_agent_event (alice_bob\<lparr>iterations := 3\<rparr>) (context_with [])) = Inr False
   \<and> turn_held (last_agent_event (alice_bob\<lparr>iterations := 3\<rparr>)
         (context_with [tool_event ''Bob'' True])) = Inr False
   \<and> get_agent (alice_bob\<lparr>iterations := 3\<rparr>) (context_with [])
       = Inr (''Bob'', alice_bob\<lparr>iterations := 4\<rparr>)
   \<and> get_agent_calls (alice_bob\<lparr>iterations := 3\<rparr>)
         [context_with [], context_with [tool_event ''Bob'' True]]
       = Inr ([''Bob'', ''Alice''], alice_bob\<lparr>iterations := 5\<rparr>)"
proof -
  let ?t = "alice_bob\<lparr>iterations := 3\<rparr>"
  let ?cs = "[context_with [], context_with [tool_event ''Bob'' True]]"
  let ?k = "nat (iterations ?t mod int (length (Team.agents ?t)))"
  have a: "Team.agents ?t \<noteq> []"
    by (simp add: alice_bob_def)
  have h1: "turn_held (last_agent_event ?t (context_with [])) = Inr False"
    by (simp add: last_agent_event_def get_events_def context_with_def)
  have h2: "turn_held (last_agent_event ?t (context_with [tool_event ''Bob'' True])) = Inr False"
    by (simp add: last_agent_event_def get_events_def context_with_def alice_bob_def
        tool_event_def)
  have n: "length ?cs = length (Team.agents ?t)"
    by (simp add: alice_bob_def)
  have hs: "\<forall>c \<in> set ?cs. turn_held (last_agent_event ?t c) = Inr False"
    using h1 h2 by simp
  note th = get_agent_round_robin [OF a, of "context_with []" ?cs]
  have c1: "get_agent ?t (context_with []) =
              Inr (Team.agents ?t ! ?k, ?t\<lparr>iterations := iterations ?t + 1\<rparr>)"
    using th h1 by blast
  have c2: "get_agent_calls ?t ?cs =
              Inr (rotate ?k (Team.agents ?t),
                   ?t\<lparr>iterations := iterations ?t + int (length (Team.agents ?t))\<rparr>)"
    using th n hs by blast
  have v1: "Team.agents ?t ! ?k = ''Bob''"
    by (simp add: alice_bob_def)
  have v2: "?t\<lparr>iterations := iterations ?t + 1\<rparr> = alice_bob\<lparr>iterations := 4\<rparr>"
    by simp
  have v3: "rotate ?k (Team.agents ?t) = [''Bob'', ''Alice'']"
    by (simp add: alice_bob_def)
  have v4: "?t\<lparr>iterations := iterations ?t + int (length (Team.agents ?t))\<rparr>
              = alice_bob\<lparr>iterations := 5\<rparr>"
    by (simp add: alice_bob_def)
  from a h1 h2 c1 [unfolded v1 v2] c2 [unfolded v3 v4] show ?thesis
    by (intro conjI)
qed

text \<open>
  Claim C3. If the newest relevant event is a tool-result with \<^verbatim>\<open>end_turn = true\<close>, or
  is an agent-message, or there is no relevant event, \<^verbatim>\<open>get_agent\<close> rotates: it returns
  \<open>members[counter mod len]\<close> and increments the counter, whoever produced the last
  event. The member list of a team is not empty.
\<close>

theorem get_agent_rotation:
  assumes "last_agent_event self context = []
           \<or> (\<exists>e es. last_agent_event self context = e # es
                 \<and> (event e = ''agent-message''
                    \<or> (event e = ''tool-result'' \<and> (\<exists>r. tool_result e = Some r \<and> end_turn r))))"
    and "Team.agents self \<noteq> []"
  shows "get_agent self context =
           Inr (Team.agents self ! nat (iterations self mod int (length (Team.agents self))),
                self\<lparr>iterations := iterations self + 1\<rparr>)"
proof -
  have "turn_held (last_agent_event self context) = Inr False"
    using assms(1) by auto
  then show ?thesis
    using assms(2) by (rule get_agent_no_hold)
qed

theorem get_agent_rotation_witness:
  "last_agent_event alice_bob (context_with []) = []
   \<and> get_agent alice_bob (context_with []) = Inr (''Alice'', alice_bob\<lparr>iterations := 1\<rparr>)
   \<and> last_agent_event alice_bob (context_with [tool_event ''Bob'' False, message_event ''Bob''])
       = [message_event ''Bob'']
   \<and> event (message_event ''Bob'') = ''agent-message''
   \<and> get_agent alice_bob (context_with [tool_event ''Bob'' False, message_event ''Bob''])
       = Inr (''Alice'', alice_bob\<lparr>iterations := 1\<rparr>)
   \<and> last_agent_event alice_bob (context_with [tool_event ''Bob'' True])
       = [tool_event ''Bob'' True]
   \<and> event (tool_event ''Bob'' True) = ''tool-result''
   \<and> tool_result (tool_event ''Bob'' True) = Some \<lparr>end_turn = True\<rparr>
   \<and> get_agent alice_bob (context_with [tool_event ''Bob'' True])
       = Inr (''Alice'', alice_bob\<lparr>iterations := 1\<rparr>)"
proof -
  have a: "Team.agents alice_bob \<noteq> []"
    by (simp add: alice_bob_def)
  have q1: "last_agent_event alice_bob (context_with []) = []"
    by (simp add: last_agent_event_def get_events_def context_with_def)
  have q2: "last_agent_event alice_bob
              (context_with [tool_event ''Bob'' False, message_event ''Bob''])
            = [message_event ''Bob'']"
    by (simp add: last_agent_event_def get_events_def context_with_def alice_bob_def
        tool_event_def message_event_def)
  have k2: "event (message_event ''Bob'') = ''agent-message''"
    by (simp add: message_event_def)
  have q3: "last_agent_event alice_bob (context_with [tool_event ''Bob'' True])
            = [tool_event ''Bob'' True]"
    by (simp add: last_agent_event_def get_events_def context_with_def alice_bob_def
        tool_event_def)
  have k3: "event (tool_event ''Bob'' True) = ''tool-result''"
    and t3: "tool_result (tool_event ''Bob'' True) = Some \<lparr>end_turn = True\<rparr>"
    by (simp_all add: tool_event_def)
  have g1: "get_agent alice_bob (context_with []) = Inr (''Alice'', alice_bob\<lparr>iterations := 1\<rparr>)"
    using get_agent_rotation [of alice_bob "context_with []"] q1 a
    by (simp add: alice_bob_def)
  have g2: "get_agent alice_bob (context_with [tool_event ''Bob'' False, message_event ''Bob''])
            = Inr (''Alice'', alice_bob\<lparr>iterations := 1\<rparr>)"
    using get_agent_rotation
            [of alice_bob "context_with [tool_event ''Bob'' False, message_event ''Bob'']"]
          q2 k2 a
    by (simp add: alice_bob_def)
  have g3: "get_agent alice_bob (context_with [tool_event ''Bob'' True])
            = Inr (''Alice'', alice_bob\<lparr>iterations := 1\<rparr>)"
    using get_agent_rotation [of alice_bob "context_with [tool_event ''Bob'' True]"]
          q3 k3 t3 a
    by (simp add: alice_bob_def)
  from q1 g1 q2 k2 g2 q3 k3 t3 g3 show ?thesis
    by simp
qed

section \<open>Construction and selection\<close>

text \<open>The query returns logged events of the agents it is asked for.\<close>

lemma get_events_agent:
  "e \<in> set (get_events f ags tks types limit) \<Longrightarrow> agent e \<in> set ags"
  by (auto simp add: get_events_def dest: in_set_takeD)

lemma get_events_logged:
  "e \<in> set (get_events f ags tks types limit) \<Longrightarrow> e \<in> set (events f)"
  by (auto simp add: get_events_def dest: in_set_takeD)

text \<open>A call on a non-empty team, over a log of well-formed events, returns a member
  and changes the counter at most.\<close>

lemma get_agent_member:
  assumes "Team.agents self \<noteq> []"
    and "\<forall>e \<in> set (events (flow context)). well_formed e"
  shows "\<exists>a. a \<in> set (Team.agents self) \<and>
           (get_agent self context = Inr (a, self)
            \<or> get_agent self context = Inr (a, self\<lparr>iterations := iterations self + 1\<rparr>))"
proof (cases "last_agent_event self context")
  case Nil
  then have "get_agent self context =
      Inr (Team.agents self ! nat (iterations self mod int (length (Team.agents self))),
           self\<lparr>iterations := iterations self + 1\<rparr>)"
    using assms(1) by (simp add: get_agent_no_hold)
  moreover have "Team.agents self ! nat (iterations self mod int (length (Team.agents self)))
                   \<in> set (Team.agents self)"
    using assms(1) by (simp add: nat_less_iff)
  ultimately show ?thesis by blast
next
  case (Cons e es)
  then have m: "e \<in> set (get_events (flow context) (Team.agents self) (tasks context)
                     [''tool-result'', ''agent-message''] 1)"
    by (simp add: last_agent_event_def)
  have a: "agent e \<in> set (Team.agents self)"
    using m by (rule get_events_agent)
  have w: "well_formed e"
    using m assms(2) get_events_logged by blast
  show ?thesis
  proof (cases "turn_held (e # es)")
    case (Inl err)
    then show ?thesis using w by (auto simp add: well_formed_def split: if_splits option.splits)
  next
    case (Inr b)
    show ?thesis
    proof (cases b)
      case True
      then have "get_agent self context = Inr (agent e, self)"
        using Inr Cons by (simp add: get_agent_def)
      then show ?thesis using a by blast
    next
      case False
      then have "get_agent self context =
        Inr (Team.agents self ! nat (iterations self mod int (length (Team.agents self))),
           self\<lparr>iterations := iterations self + 1\<rparr>)"
        using Inr Cons assms(1) by (simp add: get_agent_no_hold)
      moreover have "Team.agents self ! nat (iterations self mod int (length (Team.agents self)))
                   \<in> set (Team.agents self)"
        using assms(1) by (simp add: nat_less_iff)
      ultimately show ?thesis by blast
    qed
  qed
qed

lemma get_agent_calls_members:
  assumes "Team.agents self \<noteq> []"
    and "\<forall>c \<in> set cs. \<forall>e \<in> set (events (flow c)). well_formed e"
  shows "\<exists>as self'. get_agent_calls self cs = Inr (as, self')
           \<and> length as = length cs
           \<and> set as \<subseteq> set (Team.agents self)
           \<and> Team.agents self' = Team.agents self"
  using assms
proof (induction cs arbitrary: self)
  case Nil
  then show ?case by simp
next
  case (Cons c cs)
  from Cons.prems obtain a s1 where a: "a \<in> set (Team.agents self)"
    and g: "get_agent self c = Inr (a, s1)"
    and s1: "Team.agents s1 = Team.agents self"
    using get_agent_member [of self c] by auto
  have "Team.agents s1 \<noteq> []" using s1 Cons.prems by simp
  moreover have "\<forall>c \<in> set cs. \<forall>e \<in> set (events (flow c)). well_formed e"
    using Cons.prems by simp
  ultimately obtain as s2 where r: "get_agent_calls s1 cs = Inr (as, s2)"
    and l: "length as = length cs"
    and m: "set as \<subseteq> set (Team.agents s1)" and k: "Team.agents s2 = Team.agents s1"
    using Cons.IH [of s1] by blast
  show ?case
    using a g s1 r l m k by simp
qed

text \<open>
  Claim C6. Constructing a team with a missing or empty member list raises a
  validation error; constructing one with at least one member succeeds, with that
  member list. Hence a constructed team has a non-empty member list, it keeps it
  through any number of \<^verbatim>\<open>get_agent\<close> calls, and every such call returns a member of
  the team: no call fails for want of a member. The events of the log are well
  formed: a tool-result event has its \<^verbatim>\<open>tool_result\<close>.
\<close>

theorem team_never_empty:
  "new_team None nm d p i = (Inl ValidationError :: py_error + 'a Team)
   \<and> new_team (Some []) nm d p i = (Inl ValidationError :: py_error + 'a Team)
   \<and> (xs \<noteq> [] \<longrightarrow> (\<exists>t. new_team (Some xs) nm d p i = Inr t \<and> Team.agents t = xs))
   \<and> (new_team ags nm d p i = Inr t
        \<and> (\<forall>c \<in> set cs. \<forall>e \<in> set (events (flow c)). well_formed e) \<longrightarrow>
      Team.agents t \<noteq> []
      \<and> (\<exists>as t'. get_agent_calls t cs = Inr (as, t')
            \<and> length as = length cs
            \<and> set as \<subseteq> set (Team.agents t)
            \<and> Team.agents t' = Team.agents t))"
proof (intro conjI impI)
  show "new_team None nm d p i = (Inl ValidationError :: py_error + 'a Team)"
    by (simp add: new_team_def validate_agents_def)
  show "new_team (Some []) nm d p i = (Inl ValidationError :: py_error + 'a Team)"
    by (simp add: new_team_def validate_agents_def)
next
  assume "xs \<noteq> []"
  then show "\<exists>t. new_team (Some xs) nm d p i = Inr t \<and> Team.agents t = xs"
    by (simp add: new_team_def validate_agents_def)
next
  assume h: "new_team ags nm d p i = Inr t
        \<and> (\<forall>c \<in> set cs. \<forall>e \<in> set (events (flow c)). well_formed e)"
  then show ne: "Team.agents t \<noteq> []"
    by (auto simp add: new_team_def validate_agents_def split: option.splits if_splits)
  then show "\<exists>as t'. get_agent_calls t cs = Inr (as, t')
            \<and> length as = length cs
            \<and> set as \<subseteq> set (Team.agents t)
            \<and> Team.agents t' = Team.agents t"
    using h by (simp add: get_agent_calls_members)
qed


lemma scenario_calls:
  "get_agent_calls alice_bob scenario
     = Inr ([''Alice'', ''Alice'', ''Bob''], alice_bob\<lparr>iterations := 2\<rparr>)"
  by (simp add: scenario_def get_agent_def rotate_agent_def last_agent_event_def
      get_events_def alice_bob_def context_with_def tool_event_def)

theorem team_never_empty_witness:
  "[''Alice'', ''Bob''] \<noteq> []
   \<and> new_team (Some [''Alice'', ''Bob'']) None None None None = Inr alice_bob
   \<and> well_formed (tool_event ''Alice'' False) \<and> well_formed (tool_event ''Alice'' True)
   \<and> Team.agents alice_bob \<noteq> []
   \<and> (\<exists>as t'. get_agent_calls alice_bob scenario = Inr (as, t')
         \<and> length as = length scenario
         \<and> set as \<subseteq> set (Team.agents alice_bob)
         \<and> Team.agents t' = Team.agents alice_bob)
   \<and> get_agent_calls alice_bob scenario
       = Inr ([''Alice'', ''Alice'', ''Bob''], alice_bob\<lparr>iterations := 2\<rparr>)"
proof -
  have n: "new_team (Some [''Alice'', ''Bob'']) None None None None = Inr alice_bob"
    by (simp add: new_team_def validate_agents_def alice_bob_def)
  have w1: "well_formed (tool_event ''Alice'' False)"
    and w2: "well_formed (tool_event ''Alice'' True)"
    by (simp_all add: well_formed_def tool_event_def)
  have w: "\<forall>c \<in> set scenario. \<forall>e \<in> set (events (flow c)). well_formed e"
    using w1 w2 by (simp add: scenario_def context_with_def)
  note th = team_never_empty
              [of None None None None "[''Alice'', ''Bob'']" "Some [''Alice'', ''Bob'']"
                  alice_bob scenario]
  have c: "Team.agents alice_bob \<noteq> []
      \<and> (\<exists>as t'. get_agent_calls alice_bob scenario = Inr (as, t')
            \<and> length as = length scenario
            \<and> set as \<subseteq> set (Team.agents alice_bob)
            \<and> Team.agents t' = Team.agents alice_bob)"
    using th n w by blast
  from n w1 w2 c scenario_calls show ?thesis
    by simp
qed

section \<open>Identifiers\<close>

text \<open>The hashed tuple holds each of the six fields.\<close>

lemma hashed_fields_eq:
  "hashed_fields agent_id t1 = hashed_fields agent_id t2 \<longleftrightarrow>
     type_name t1 = type_name t2 \<and> name t1 = name t2 \<and> description t1 = description t2
     \<and> prompt t1 = prompt t2 \<and> Team.instructions t1 = Team.instructions t2
     \<and> map agent_id (Team.agents t1) = map agent_id (Team.agents t2)"
  by (auto simp add: hashed_fields_def)

text \<open>Two of the teams \<open>named_team\<close> differ in their names.\<close>

lemma named_team_fields:
  "j \<noteq> k \<Longrightarrow> hashed_fields (\<lambda>a. a) (named_team j) \<noteq> hashed_fields (\<lambda>a. a) (named_team k)"
proof
  assume jk: "j \<noteq> k"
    and "hashed_fields (\<lambda>a. a) (named_team j) = hashed_fields (\<lambda>a. a) (named_team k)"
  then have "replicate j (CHR ''a'') = replicate k (CHR ''a'')"
    by (simp add: hashed_fields_def named_team_def)
  then have "length (replicate j (CHR ''a'')) = length (replicate k (CHR ''a''))"
    by (rule arg_cong)
  with jk show False by simp
qed

text \<open>
  A hash whose digests have a bounded length takes finitely many values, and cannot
  tell infinitely many teams apart.
\<close>

lemma bounded_hash_collides:
  assumes "\<forall>x. length (h x) \<le> n"
  shows "\<exists>j k. j \<noteq> k \<and> generate_id h (\<lambda>a. a) (named_team j) = generate_id h (\<lambda>a. a) (named_team k)"
proof (rule ccontr)
  assume "\<not> ?thesis"
  then have "inj (\<lambda>k. generate_id h (\<lambda>a. a) (named_team k))"
    by (auto simp add: inj_on_def)
  moreover have "range (\<lambda>k. generate_id h (\<lambda>a. a) (named_team k)) \<subseteq> {s. length s \<le> n}"
  proof
    fix s
    assume "s \<in> range (\<lambda>k. generate_id h (\<lambda>a. a) (named_team k))"
    then obtain k where "s = h (hashed_fields (\<lambda>a. a) (named_team k))"
      by (auto simp add: generate_id_def)
    moreover from assms have "length (h (hashed_fields (\<lambda>a. a) (named_team k))) \<le> n"
      by (rule spec)
    ultimately show "s \<in> {s. length s \<le> n}"
      by simp
  qed
  moreover have "finite {s :: string. length s \<le> n}"
    using finite_lists_length_le [of "UNIV :: char set" n] by simp
  ultimately have "finite (UNIV :: nat set)"
    by (meson finite_imageD finite_subset)
  then show False by simp
qed

text \<open>
  Claim C7, as amended. Two teams with identical type name, name, description,
  prompt, instructions and ordered member identifiers have equal identifiers, whatever
  the hash function; the hashed tuple is the same exactly when all six are the same,
  so a change of one field or of the member order changes the tuple; and two teams
  with different identifiers differ in one of the six.
\<close>

theorem generate_id_deterministic:
  "(type_name t1 = type_name t2 \<and> name t1 = name t2 \<and> description t1 = description t2
      \<and> prompt t1 = prompt t2 \<and> Team.instructions t1 = Team.instructions t2
      \<and> map agent_id (Team.agents t1) = map agent_id (Team.agents t2)
     \<longrightarrow> generate_id h agent_id t1 = generate_id h agent_id t2)
   \<and> (hashed_fields agent_id t1 = hashed_fields agent_id t2 \<longleftrightarrow>
        type_name t1 = type_name t2 \<and> name t1 = name t2 \<and> description t1 = description t2
        \<and> prompt t1 = prompt t2 \<and> Team.instructions t1 = Team.instructions t2
        \<and> map agent_id (Team.agents t1) = map agent_id (Team.agents t2))
   \<and> (generate_id h agent_id t1 \<noteq> generate_id h agent_id t2
     \<longrightarrow> hashed_fields agent_id t1 \<noteq> hashed_fields agent_id t2)"
  by (auto simp add: generate_id_def hashed_fields_def)

theorem generate_id_deterministic_witness:
  "type_name alice_bob = type_name (alice_bob\<lparr>iterations := 7\<rparr>)
   \<and> name alice_bob = name (alice_bob\<lparr>iterations := 7\<rparr>)
   \<and> description alice_bob = description (alice_bob\<lparr>iterations := 7\<rparr>)
   \<and> prompt alice_bob = prompt (alice_bob\<lparr>iterations := 7\<rparr>)
   \<and> Team.instructions alice_bob = Team.instructions (alice_bob\<lparr>iterations := 7\<rparr>)
   \<and> map (\<lambda>a. a) (Team.agents alice_bob) = map (\<lambda>a. a) (Team.agents (alice_bob\<lparr>iterations := 7\<rparr>))
   \<and> alice_bob \<noteq> alice_bob\<lparr>iterations := 7\<rparr>
   \<and> generate_id (\<lambda>(ty, nm, rest). ty @ nm) (\<lambda>a. a) alice_bob
       = generate_id (\<lambda>(ty, nm, rest). ty @ nm) (\<lambda>a. a) (alice_bob\<lparr>iterations := 7\<rparr>)
   \<and> generate_id (\<lambda>(ty, nm, rest). ty @ nm) (\<lambda>a. a) alice_bob
       \<noteq> generate_id (\<lambda>(ty, nm, rest). ty @ nm) (\<lambda>a. a) (alice_bob\<lparr>name := ''Others''\<rparr>)
   \<and> hashed_fields (\<lambda>a. a) alice_bob \<noteq> hashed_fields (\<lambda>a. a) (alice_bob\<lparr>name := ''Others''\<rparr>)"
proof -
  let ?h = "\<lambda>(ty :: string, nm :: string,
               rest :: string option \<times> string option \<times> string option \<times> string list). ty @ nm"
  have d: "alice_bob \<noteq> alice_bob\<lparr>iterations := 7\<rparr>"
  proof
    assume "alice_bob = alice_bob\<lparr>iterations := 7\<rparr>"
    then have "iterations alice_bob = iterations (alice_bob\<lparr>iterations := 7\<rparr>)"
      by (rule arg_cong)
    then show False by (simp add: alice_bob_def)
  qed
  have e: "generate_id ?h (\<lambda>a. a) alice_bob
             \<noteq> generate_id ?h (\<lambda>a. a) (alice_bob\<lparr>name := ''Others''\<rparr>)"
    by (simp add: generate_id_def hashed_fields_def alice_bob_def)
  note th1 = generate_id_deterministic
               [of alice_bob "alice_bob\<lparr>iterations := 7\<rparr>" "\<lambda>a. a" ?h]
  note th2 = generate_id_deterministic
               [of alice_bob "alice_bob\<lparr>name := ''Others''\<rparr>" "\<lambda>a. a" ?h]
  have s: "generate_id ?h (\<lambda>a. a) alice_bob
             = generate_id ?h (\<lambda>a. a) (alice_bob\<lparr>iterations := 7\<rparr>)"
    using th1 by simp
  have f: "hashed_fields (\<lambda>a. a) alice_bob
             \<noteq> hashed_fields (\<lambda>a. a) (alice_bob\<lparr>name := ''Others''\<rparr>)"
    using th2 e by blast
  from d s e f show ?thesis
    by simp
qed

text \<open>
  Claim C7, as stated, asks that a change of a field always changes the identifier.
  No hash function with digests of bounded length does that (the identifiers the
  repository's tests expect have 8 characters): among the teams \<open>named_team\<close>, which
  differ in their names, two have the same identifier.
\<close>

theorem generate_id_collision:
  "\<not> (\<exists>h n. (\<forall>x. length (h x) \<le> n)
         \<and> (\<forall>t1 t2 :: string Team.
               hashed_fields (\<lambda>a. a) t1 \<noteq> hashed_fields (\<lambda>a. a) t2
               \<longrightarrow> generate_id h (\<lambda>a. a) t1 \<noteq> generate_id h (\<lambda>a. a) t2))"
proof
  assume "\<exists>h n. (\<forall>x. length (h x) \<le> n)
         \<and> (\<forall>t1 t2 :: string Team.
               hashed_fields (\<lambda>a. a) t1 \<noteq> hashed_fields (\<lambda>a. a) t2
               \<longrightarrow> generate_id h (\<lambda>a. a) t1 \<noteq> generate_id h (\<lambda>a. a) t2)"
  then obtain h n where b: "\<forall>x. length (h x) \<le> n"
    and i: "\<forall>t1 t2 :: string Team.
               hashed_fields (\<lambda>a. a) t1 \<noteq> hashed_fields (\<lambda>a. a) t2
               \<longrightarrow> generate_id h (\<lambda>a. a) t1 \<noteq> generate_id h (\<lambda>a. a) t2"
    by blast
  from b obtain j k where jk: "j \<noteq> k"
    and c: "generate_id h (\<lambda>a. a) (named_team j) = generate_id h (\<lambda>a. a) (named_team k)"
    using bounded_hash_collides by blast
  from jk have "hashed_fields (\<lambda>a. a) (named_team j) \<noteq> hashed_fields (\<lambda>a. a) (named_team k)"
    by (rule named_team_fields)
  with i c show False by blast
qed

section \<open>The participant list\<close>

text \<open>
  Claim C8. Calling \<^verbatim>\<open>add_agent(a)\<close> twice leaves the context as calling it once does,
  and calling it when \<open>a\<close> is already a participant leaves the context as it was: the
  participant list keeps its length and order. An agent that is not yet a participant
  is appended at the end.
\<close>

theorem add_agent_idempotent:
  "add_agent (add_agent self a) a = add_agent self a
   \<and> (a \<in> set (AgentContext.agents self) \<longrightarrow> add_agent self a = self)
   \<and> (a \<notin> set (AgentContext.agents self) \<longrightarrow>
        AgentContext.agents (add_agent self a) = AgentContext.agents self @ [a])
   \<and> length (AgentContext.agents (add_agent (add_agent self a) a))
       = length (AgentContext.agents (add_agent self a))"
  by (simp add: add_agent_def)

theorem add_agent_idempotent_witness:
  "''P2'' \<in> set (AgentContext.agents two_agents)
   \<and> add_agent two_agents ''P2'' = two_agents
   \<and> ''P3'' \<notin> set (AgentContext.agents two_agents)
   \<and> AgentContext.agents (add_agent two_agents ''P3'') = [''P1'', ''P2'', ''P3'']
   \<and> AgentContext.agents (add_agent (add_agent two_agents ''P3'') ''P3'')
       = [''P1'', ''P2'', ''P3'']"
proof -
  have m: "''P2'' \<in> set (AgentContext.agents two_agents)"
    and n: "''P3'' \<notin> set (AgentContext.agents two_agents)"
    by (simp_all add: two_agents_def)
  have ags: "AgentContext.agents two_agents @ [''P3''] = [''P1'', ''P2'', ''P3'']"
    by (simp add: two_agents_def)
  note p2 = add_agent_idempotent [of two_agents "''P2''"]
  note p3 = add_agent_idempotent [of two_agents "''P3''"]
  have a: "add_agent two_agents ''P2'' = two_agents"
    using p2 m by blast
  have b: "AgentContext.agents (add_agent two_agents ''P3'') = [''P1'', ''P2'', ''P3'']"
    using p3 n ags by simp
  have c: "add_agent (add_agent two_agents ''P3'') ''P3'' = add_agent two_agents ''P3''"
    using p3 by blast
  from m a n b c show ?thesis
    by simp
qed

section \<open>Event handling\<close>

text \<open>The loop calls every handler once, in the order of the list, with the same event.\<close>

lemma run_handlers_map: "run_handlers hs e = map (\<lambda>h. HandlerCall h e) hs"
  by (induction hs) simp_all

lemma add_tasks_set: "set (event_tasks (add_tasks e ts)) = set (event_tasks e) \<union> set ts"
  by (auto simp add: add_tasks_def)

lemma add_agents_set: "set (event_agents (add_agents e as)) = set (event_agents e) \<union> set as"
  by (auto simp add: add_agents_def)

text \<open>
  Claim C4. \<^verbatim>\<open>handle_event(e, persist=None)\<close> decides persistence by \<open>e\<close>'s own
  \<^verbatim>\<open>persist\<close>. The call stamps \<open>e\<close> with the flow's thread id, then associates it with
  the context's tasks, then with its agents, and changes nothing else of it; it then
  calls every handler, in registration order, with the enriched event, whatever the
  persist decision; and exactly when persist is true it then appends the enriched
  event to the log, once, after the last handler call.
\<close>

theorem handle_event_order:
  "handle_event self ev None = handle_event self ev (Some (persist ev))
   \<and> (let ev' = add_agents
                  (add_tasks (ev\<lparr>Event.thread_id := Some (Flow.thread_id (flow self))\<rparr>)
                     (tasks self))
                  (AgentContext.agents self)
      in Event.thread_id ev' = Some (Flow.thread_id (flow self))
         \<and> set (event_tasks ev') = set (event_tasks ev) \<union> set (tasks self)
         \<and> set (event_agents ev') = set (event_agents ev) \<union> set (AgentContext.agents self)
         \<and> event ev' = event ev \<and> agent ev' = agent ev \<and> tool_result ev' = tool_result ev
         \<and> persist ev' = persist ev
         \<and> handle_event self ev (Some True)
             = (self\<lparr>flow := (flow self)\<lparr>events := events (flow self) @ [ev']\<rparr>\<rparr>,
                ev',
                map (\<lambda>h. HandlerCall h ev') (handlers self) @ [LogWrite [ev']])
         \<and> handle_event self ev (Some False)
             = (self, ev', map (\<lambda>h. HandlerCall h ev') (handlers self)))"
proof -
  let ?ev' = "add_agents
                  (add_tasks (ev\<lparr>Event.thread_id := Some (Flow.thread_id (flow self))\<rparr>)
                     (tasks self))
                  (AgentContext.agents self)"
  have d: "handle_event self ev None = handle_event self ev (Some (persist ev))"
    by (simp add: handle_event_def)
  have t: "Event.thread_id ?ev' = Some (Flow.thread_id (flow self))"
    by (simp add: add_agents_def add_tasks_def)
  have ts: "set (event_tasks ?ev') = set (event_tasks ev) \<union> set (tasks self)"
    by (auto simp add: add_agents_def add_tasks_def)
  have as: "set (event_agents ?ev') = set (event_agents ev) \<union> set (AgentContext.agents self)"
    by (auto simp add: add_agents_def add_tasks_def)
  have k: "event ?ev' = event ev \<and> agent ?ev' = agent ev \<and> tool_result ?ev' = tool_result ev
           \<and> persist ?ev' = persist ev"
    by (simp add: add_agents_def add_tasks_def)
  have p: "handle_event self ev (Some True)
             = (self\<lparr>flow := (flow self)\<lparr>events := events (flow self) @ [?ev']\<rparr>\<rparr>,
                ?ev',
                map (\<lambda>h. HandlerCall h ?ev') (handlers self) @ [LogWrite [?ev']])"
    by (simp add: handle_event_def add_events_def run_handlers_map Let_def)
  have q: "handle_event self ev (Some False)
             = (self, ?ev', map (\<lambda>h. HandlerCall h ?ev') (handlers self))"
    by (simp add: handle_event_def run_handlers_map Let_def)
  from d t ts as k p q show ?thesis
    unfolding Let_def by blast
qed

text \<open>The example: two handlers see the enriched event, then the log is written.\<close>

lemma handle_event_example:
  "handle_event two_agents new_message None
     = (two_agents\<lparr>flow := \<lparr>thread_id = ''run'', events = [enriched_message]\<rparr>\<rparr>,
        enriched_message,
        [HandlerCall ''log'' enriched_message, HandlerCall ''print'' enriched_message,
         LogWrite [enriched_message]])
   \<and> handle_event two_agents new_message (Some False)
     = (two_agents, enriched_message,
        [HandlerCall ''log'' enriched_message, HandlerCall ''print'' enriched_message])"
  by (simp add: handle_event_def add_events_def add_tasks_def add_agents_def two_agents_def
      new_message_def enriched_message_def Let_def)

section \<open>Prompt compilation\<close>

text \<open>
  Claim C5. \<^verbatim>\<open>compile_prompt\<close> returns the renderings that are not empty, joined by
  blank lines, in this order: the prompt of the target agent first when it is not a
  participant (as if it had been registered last), then the participants' prompts
  in reverse registration order, then the flow's prompt, the task list, the tool
  list and the instructions. With participants \<open>[P1, P2]\<close> and a target \<open>P3\<close> that is
  neither, the agents' prompts come as \<open>P3\<close>, \<open>P2\<close>, \<open>P1\<close>.
\<close>

theorem compile_prompt_order:
  "fst (compile_prompt R self a) =
     join blank_line
       (filter (\<lambda>p. p \<noteq> [])
          ((if a \<in> set (AgentContext.agents self) then [] else [get_prompt R a self]) @
           map (\<lambda>b. get_prompt R b self) (rev (AgentContext.agents self)) @
           [flow_get_prompt R (flow self) self,
            TasksTemplate R (tasks self) self,
            ToolTemplate R (tools self) self,
            InstructionsTemplate R (AgentContext.instructions self) self]))
   \<and> (AgentContext.agents self = [p1, p2] \<and> p3 \<noteq> p1 \<and> p3 \<noteq> p2 \<longrightarrow>
        fst (compile_prompt R self p3) =
          join blank_line
            (filter (\<lambda>p. p \<noteq> [])
               [get_prompt R p3 self, get_prompt R p2 self, get_prompt R p1 self,
                flow_get_prompt R (flow self) self,
                TasksTemplate R (tasks self) self,
                ToolTemplate R (tools self) self,
                InstructionsTemplate R (AgentContext.instructions self) self]))"
  by (simp add: compile_prompt_def Let_def)

theorem compile_prompt_order_witness:
  "AgentContext.agents two_agents = [''P1'', ''P2''] \<and> ''P3'' \<noteq> ''P1'' \<and> ''P3'' \<noteq> ''P2''
   \<and> fst (compile_prompt renderers two_agents ''P3'') =
        ''agent P3'' @ blank_line @ ''agent P2'' @ blank_line @ ''agent P1'' @ blank_line @
        ''flow'' @ blank_line @ ''tasks'' @ blank_line @ ''instructions''
   \<and> fst (compile_prompt renderers two_agents ''P1'') =
        ''agent P2'' @ blank_line @ ''agent P1'' @ blank_line @
        ''flow'' @ blank_line @ ''tasks'' @ blank_line @ ''instructions''"
proof -
  have a: "AgentContext.agents two_agents = [''P1'', ''P2'']"
    by (simp add: two_agents_def)
  have n: "''P3'' \<noteq> ''P1'' \<and> ''P3'' \<noteq> ''P2''"
    by simp
  note th3 = compile_prompt_order [of renderers two_agents "''P3''" "''P1''" "''P2''" "''P3''"]
  note th1 = compile_prompt_order [of renderers two_agents "''P1''" "''P1''" "''P2''" "''P3''"]
  have r3: "fst (compile_prompt renderers two_agents ''P3'') =
          join blank_line
            (filter (\<lambda>p. p \<noteq> [])
               [get_prompt renderers ''P3'' two_agents, get_prompt renderers ''P2'' two_agents,
                get_prompt renderers ''P1'' two_agents,
                flow_get_prompt renderers (flow two_agents) two_agents,
                TasksTemplate renderers (tasks two_agents) two_agents,
                ToolTemplate renderers (tools two_agents) two_agents,
                InstructionsTemplate renderers (AgentContext.instructions two_agents)
                  two_agents])"
    using th3 a n by blast
  have r1: "fst (compile_prompt renderers two_agents ''P1'') =
     join blank_line
       (filter (\<lambda>p. p \<noteq> [])
          ((if ''P1'' \<in> set (AgentContext.agents two_agents) then []
            else [get_prompt renderers ''P1'' two_agents]) @
           map (\<lambda>b. get_prompt renderers b two_agents) (rev (AgentContext.agents two_agents)) @
           [flow_get_prompt renderers (flow two_agents) two_agents,
            TasksTemplate renderers (tasks two_agents) two_agents,
            ToolTemplate renderers (tools two_agents) two_agents,
            InstructionsTemplate renderers (AgentContext.instructions two_agents) two_agents]))"
    using th1 by blast
  have v3: "fst (compile_prompt renderers two_agents ''P3'') =
        ''agent P3'' @ blank_line @ ''agent P2'' @ blank_line @ ''agent P1'' @ blank_line @
        ''flow'' @ blank_line @ ''tasks'' @ blank_line @ ''instructions''"
    unfolding r3 by (simp add: renderers_def)
  have v1: "fst (compile_prompt renderers two_agents ''P1'') =
        ''agent P2'' @ blank_line @ ''agent P1'' @ blank_line @
        ''flow'' @ blank_line @ ''tasks'' @ blank_line @ ''instructions''"
    unfolding r1 by (simp add: renderers_def a)
  from a n v3 v1 show ?thesis
    by simp
qed

text \<open>
  Claim C10. \<^verbatim>\<open>compile_prompt\<close> leaves the context as it was: participants, tasks,
  tools, handlers and instructions are the same after the call, and a target agent
  that was not a participant is not one afterwards, though its prompt is compiled.
\<close>

theorem compile_prompt_frame:
  "snd (compile_prompt R self a) = self
   \<and> AgentContext.agents (snd (compile_prompt R self a)) = AgentContext.agents self
   \<and> tasks (snd (compile_prompt R self a)) = tasks self
   \<and> tools (snd (compile_prompt R self a)) = tools self
   \<and> handlers (snd (compile_prompt R self a)) = handlers self
   \<and> AgentContext.instructions (snd (compile_prompt R self a)) = AgentContext.instructions self
   \<and> (a \<notin> set (AgentContext.agents self) \<longrightarrow>
        a \<notin> set (AgentContext.agents (snd (compile_prompt R self a))))"
  by (simp add: compile_prompt_def Let_def)

theorem compile_prompt_frame_witness:
  "''P3'' \<notin> set (AgentContext.agents two_agents)
   \<and> ''P3'' \<notin> set (AgentContext.agents (snd (compile_prompt renderers two_agents ''P3'')))
   \<and> snd (compile_prompt renderers two_agents ''P3'') = two_agents
   \<and> AgentContext.agents (snd (compile_prompt renderers two_agents ''P3'')) = [''P1'', ''P2'']"
proof -
  have n: "''P3'' \<notin> set (AgentContext.agents two_agents)"
    by (simp add: two_agents_def)
  have a: "AgentContext.agents two_agents = [''P1'', ''P2'']"
    by (simp add: two_agents_def)
  note th = compile_prompt_frame [of renderers two_agents "''P3''"]
  have k: "''P3'' \<notin> set (AgentContext.agents (snd (compile_prompt renderers two_agents ''P3'')))"
    using th n by blast
  have s: "snd (compile_prompt renderers two_agents ''P3'') = two_agents"
    using th by blast
  from n k s a show ?thesis
    by simp
qed

section \<open>Injection of the ambient context\<close>

text \<open>
  Claim C9, as amended. Called without a function, \<^verbatim>\<open>provide_agent_context\<close> returns
  the decorator; called with one, the wrapper, whose keyword is \<^verbatim>\<open>context_kwarg\<close>, or
  "context" when that is absent or empty. When the caller gave that keyword argument,
  the function is called with the arguments as given; when the keyword is absent
  (also when the context was passed by position) and an ambient context exists, the
  function is called with the ambient context added under that keyword; and with no
  ambient context the function is called with the arguments as given.
\<close>

theorem provide_agent_context_injects:
  "provide_agent_context None ck = (Partial ck :: ('v, 'r) decorated)
   \<and> provide_agent_context (Some fn) None = Wrapper (wrapper fn ''context'')
   \<and> provide_agent_context (Some fn) (Some []) = Wrapper (wrapper fn ''context'')
   \<and> (k \<noteq> [] \<longrightarrow> provide_agent_context (Some fn) (Some k) = Wrapper (wrapper fn k))
   \<and> (k \<in> dom kwargs \<longrightarrow> wrapper fn k ambient args kwargs = fn args kwargs)
   \<and> (k \<notin> dom kwargs \<and> ambient = Some c \<longrightarrow>
        wrapper fn k ambient args kwargs = fn args (kwargs(k \<mapsto> c)))
   \<and> (ambient = None \<longrightarrow> wrapper fn k ambient args kwargs = fn args kwargs)"
  by (auto simp add: provide_agent_context_def wrapper_def)

theorem provide_agent_context_injects_witness:
  "''context'' \<noteq> []
   \<and> provide_agent_context (Some returns_context) (Some ''context'')
       = Wrapper (wrapper returns_context ''context'')
   \<and> ''context'' \<in> dom [''context'' \<mapsto> ''given'']
   \<and> wrapper returns_context ''context'' (Some ''ambient'') [] [''context'' \<mapsto> ''given'']
       = Inr ''given''
   \<and> ''context'' \<notin> dom (Map.empty :: string \<rightharpoonup> string)
   \<and> wrapper returns_context ''context'' (Some ''ambient'') [] Map.empty = Inr ''ambient''
   \<and> wrapper returns_context ''context'' None [] Map.empty = Inl TypeError
   \<and> wrapper returns_context ''context'' None [''given''] Map.empty = Inr ''given''"
proof -
  have ne: "''context'' \<noteq> []" by simp
  have d1: "''context'' \<in> dom [''context'' \<mapsto> ''given'']" by simp
  have d2: "''context'' \<notin> dom (Map.empty :: string \<rightharpoonup> string)" by simp
  note t1 = provide_agent_context_injects
              [of None returns_context "''context''"
                  "[''context'' \<mapsto> ''given'']" "Some ''ambient''" "[]" "''ambient''"]
  note t2 = provide_agent_context_injects
              [of None returns_context "''context''"
                  "Map.empty" "Some ''ambient''" "[]" "''ambient''"]
  note t3 = provide_agent_context_injects
              [of None returns_context "''context''"
                  "Map.empty" "None" "[]" "''ambient''"]
  note t4 = provide_agent_context_injects
              [of None returns_context "''context''"
                  "Map.empty" "None" "[''given'']" "''ambient''"]
  have w: "provide_agent_context (Some returns_context) (Some ''context'')
       = Wrapper (wrapper returns_context ''context'')"
    using t1 ne by blast
  have c1: "wrapper returns_context ''context'' (Some ''ambient'') [] [''context'' \<mapsto> ''given'']
       = returns_context [] [''context'' \<mapsto> ''given'']"
    using t1 d1 by blast
  have c2: "wrapper returns_context ''context'' (Some ''ambient'') [] Map.empty
       = returns_context [] (Map.empty(''context'' \<mapsto> ''ambient''))"
    using t2 d2 by blast
  have c3: "wrapper returns_context ''context'' None [] Map.empty
       = returns_context [] Map.empty"
    using t3 by blast
  have c4: "wrapper returns_context ''context'' None [''given''] Map.empty
       = returns_context [''given''] Map.empty"
    using t4 by blast
  have v1: "returns_context [] [''context'' \<mapsto> ''given''] = Inr ''given''"
    and v2: "returns_context [] (Map.empty(''context'' \<mapsto> ''ambient'')) = Inr ''ambient''"
    and v3: "returns_context [] Map.empty = Inl TypeError"
    and v4: "returns_context [''given''] Map.empty = Inr ''given''"
    by (simp_all add: returns_context_def)
  from ne w d1 d2 c1 c2 c3 c4 v1 v2 v3 v4 show ?thesis
    by simp
qed

text \<open>
  Claim C9, as stated, has the call proceed with the caller's value whenever the
  caller supplied a context explicitly. A caller who passes the context by position
  supplies it, yet the wrapper looks at the keyword arguments only and adds the
  ambient context: \<^verbatim>\<open>fn\<close> is then given the parameter twice and raises, where the
  unwrapped call returns the caller's value.
\<close>

theorem provide_agent_context_positional:
  "provide_agent_context (Some returns_context) None
       = Wrapper (wrapper returns_context ''context'')
   \<and> returns_context [''given''] Map.empty = Inr ''given''
   \<and> wrapper returns_context ''context'' (Some ''ambient'') [''given''] Map.empty
       = Inl TypeError"
  by (simp add: provide_agent_context_def wrapper_def returns_context_def)

end
